theory Spec2Isabelle
  imports Main
begin

section \<open>Values, documents and the clock\<close>

text \<open>
  The program is a FastAPI service over a MongoDB document store (\<open>src/main.py\<close>).
  Documents are Python dicts; the values the suggestion engine looks at are \<open>None\<close>,
  integers, strings, \<open>datetime\<close> objects and lists.

  A \<open>datetime\<close> is either timezone-aware or naive. An aware one is held as the instant
  it denotes, in microseconds of UTC; a naive one as its wall-clock microseconds.
  \<open>now_utc()\<close> is always aware, and Python refuses to subtract a naive datetime from an
  aware one (TypeError).
\<close>

datatype error = TypeError | InvalidId | HTTPException nat

datatype datetime = Datetime (tz_aware: bool) (micros: int)

datatype pyval = PNone | PInt int | PStr string | PDatetime datetime | PList "pyval list"

type_synonym doc = "string \<rightharpoonup> pyval"

text \<open>\<open>d.get(k, default)\<close>; \<open>d.get(k)\<close> is \<open>dict_get d k PNone\<close>.\<close>

definition dict_get :: "doc \<Rightarrow> string \<Rightarrow> pyval \<Rightarrow> pyval" where
  "dict_get d k dflt = (case d k of None \<Rightarrow> dflt | Some v \<Rightarrow> v)"

text \<open>
  Every call of \<open>now_utc()\<close> reads the wall clock anew. The clock is the sequence of its
  readings (microseconds of UTC); the state threaded through the program is the number
  of readings taken so far.
\<close>

type_synonym clock = "nat \<Rightarrow> int"

definition now_utc :: "clock \<Rightarrow> nat \<Rightarrow> datetime \<times> nat" where
  "now_utc clk n = (Datetime True (clk n), Suc n)"

text \<open>
  \<open>datetime.fromisoformat\<close> belongs to the Python library, not to the repository; it is a
  parameter of the model: \<open>None\<close> when it raises, the parsed datetime otherwise.
\<close>

type_synonym parser = "string \<Rightarrow> datetime option"

text \<open>
  The block repeated in \<open>is_due\<close>, \<open>overdue_score\<close> and the annotation loop:
  \<^verbatim>\<open>
  if isinstance(last, str):
      try: last = datetime.fromisoformat(last)
      except Exception: last = None
  \<close>
\<close>

definition parse_last :: "parser \<Rightarrow> pyval \<Rightarrow> pyval" where
  "parse_last fromisoformat lastv =
     (case lastv of
        PStr s \<Rightarrow> (case fromisoformat s of None \<Rightarrow> PNone | Some d \<Rightarrow> PDatetime d)
      | _ \<Rightarrow> lastv)"

text \<open>
  \<open>(now - last).days\<close> for an aware \<open>now\<close>: the subtraction is only defined for an aware
  datetime on the right; \<open>.days\<close> of a timedelta is the floor of its length in days
  (a timedelta is normalised with \<open>0 \<le> seconds < 86400\<close>, so negative lengths round down).
\<close>

definition us_per_day :: int where
  "us_per_day = 86400000000"

definition sub_days :: "datetime \<Rightarrow> pyval \<Rightarrow> error + int" where
  "sub_days now lastv =
     (case lastv of
        PDatetime d \<Rightarrow>
          if tz_aware d then Inr ((micros now - micros d) div us_per_day) else Inl TypeError
      | _ \<Rightarrow> Inl TypeError)"

text \<open>\<open>days >= freq\<close> and \<open>days - freq\<close> with an integer on the left.\<close>

definition int_ge :: "int \<Rightarrow> pyval \<Rightarrow> error + bool" where
  "int_ge d freq = (case freq of PInt f \<Rightarrow> Inr (d \<ge> f) | _ \<Rightarrow> Inl TypeError)"

definition int_sub :: "int \<Rightarrow> pyval \<Rightarrow> error + int" where
  "int_sub d freq = (case freq of PInt f \<Rightarrow> Inr (d - f) | _ \<Rightarrow> Inl TypeError)"

text \<open>Python truthiness, for \<open>if not dt\<close>. A datetime is always true.\<close>

fun truthy :: "pyval \<Rightarrow> bool" where
  "truthy PNone = False"
| "truthy (PInt n) = (n \<noteq> 0)"
| "truthy (PStr s) = (s \<noteq> [])"
| "truthy (PDatetime d) = True"
| "truthy (PList xs) = (xs \<noteq> [])"

section \<open>Due evaluator, overdue ranker, days since\<close>

text \<open>
  Each function takes the clock and the number of readings taken so far, and returns its
  result with the new number of readings, or the exception it raises.
\<close>

definition days_since :: "clock \<Rightarrow> nat \<Rightarrow> pyval \<Rightarrow> error + (pyval \<times> nat)" where
  "days_since clk n dt =
     (if \<not> truthy dt then Inr (PNone, n)
      else (let (now, n') = now_utc clk n in
            case sub_days now dt of Inl e \<Rightarrow> Inl e | Inr d \<Rightarrow> Inr (PInt d, n')))"

definition is_due :: "parser \<Rightarrow> clock \<Rightarrow> nat \<Rightarrow> doc \<Rightarrow> error + (bool \<times> nat)" where
  "is_due fromisoformat clk n contact =
     (let freq = dict_get contact ''frequencyDays'' (PInt 30);
          lastv = parse_last fromisoformat (dict_get contact ''lastContactedAt'' PNone)
      in if lastv = PNone then Inr (True, n)
         else (let (now, n') = now_utc clk n in
               case sub_days now lastv of
                 Inl e \<Rightarrow> Inl e
               | Inr d \<Rightarrow> (case int_ge d freq of Inl e \<Rightarrow> Inl e | Inr b \<Rightarrow> Inr (b, n'))))"

text \<open>
  The score is the float \<open>1e9\<close> or an \<open>int\<close>. Python compares an int with a float by
  their exact values and \<open>1e9\<close> is the integer \<open>10^9\<close>, so scores are integers here.
\<close>

definition never_score :: int where
  "never_score = 1000000000"

definition overdue_score :: "parser \<Rightarrow> clock \<Rightarrow> nat \<Rightarrow> doc \<Rightarrow> error + (int \<times> nat)" where
  "overdue_score fromisoformat clk n c =
     (let lastv = parse_last fromisoformat (dict_get c ''lastContactedAt'' PNone);
          freq = dict_get c ''frequencyDays'' (PInt 30)
      in if lastv = PNone then Inr (never_score, n)
         else (let (now, n') = now_utc clk n in
               case sub_days now lastv of
                 Inl e \<Rightarrow> Inl e
               | Inr d \<Rightarrow> (case int_sub d freq of Inl e \<Rightarrow> Inl e | Inr s \<Rightarrow> Inr (s, n'))))"

section \<open>The suggestion engine\<close>

text \<open>
  A collection is the list of its documents in storage order, each with its \<open>_id\<close> held
  apart from the other fields. The store maps a collection name to the collection;
  \<open>db\<close> is \<open>None\<close> when no database is configured.
\<close>

datatype bson_id = OidKey string | StrKey string

fun id_str :: "bson_id \<Rightarrow> string" where
  "id_str (OidKey h) = h"
| "id_str (StrKey s) = s"

type_synonym coll = "(bson_id \<times> doc) list"
type_synonym database = "string \<Rightarrow> coll"

definition collection :: "database option \<Rightarrow> string \<Rightarrow> error + coll" where
  "collection db name =
     (case db of None \<Rightarrow> Inl (HTTPException 500) | Some d \<Rightarrow> Inr (d name))"

text \<open>\<open>it["id"] = str(it.pop("_id"))\<close> for every loaded document.\<close>

definition with_id :: "bson_id \<times> doc \<Rightarrow> doc" where
  "with_id it = (snd it)(''id'' \<mapsto> PStr (id_str (fst it)))"

text \<open>
  \<open>items.sort(key=overdue_score, reverse=True)\<close>: the key is computed once for every
  element, in list order; then the list is sorted by key, descending, elements with equal
  keys keeping their order (\<open>reverse=True\<close> keeps the sort stable). A stable ascending
  sort on the negated key is that order.
\<close>

fun keys_of :: "parser \<Rightarrow> clock \<Rightarrow> nat \<Rightarrow> doc list \<Rightarrow> error + (int list \<times> nat)" where
  "keys_of p clk n [] = Inr ([], n)"
| "keys_of p clk n (c # cs) =
     (case overdue_score p clk n c of
        Inl e \<Rightarrow> Inl e
      | Inr (s, n') \<Rightarrow>
          (case keys_of p clk n' cs of
             Inl e \<Rightarrow> Inl e
           | Inr (ss, n'') \<Rightarrow> Inr (s # ss, n'')))"

definition sort_desc :: "(int \<times> doc) list \<Rightarrow> (int \<times> doc) list" where
  "sort_desc kcs = sort_key (\<lambda>kc. - fst kc) kcs"

text \<open>\<open>[c for c in items if is_due(c)]\<close>\<close>

fun due_of :: "parser \<Rightarrow> clock \<Rightarrow> nat \<Rightarrow> doc list \<Rightarrow> error + (doc list \<times> nat)" where
  "due_of p clk n [] = Inr ([], n)"
| "due_of p clk n (c # cs) =
     (case is_due p clk n c of
        Inl e \<Rightarrow> Inl e
      | Inr (b, n') \<Rightarrow>
          (case due_of p clk n' cs of
             Inl e \<Rightarrow> Inl e
           | Inr (ds, n'') \<Rightarrow> Inr (if b then c # ds else ds, n'')))"

text \<open>\<open>xs[:k]\<close>: a negative \<open>k\<close> drops the final \<open>-k\<close> elements.\<close>

definition slice_to :: "int \<Rightarrow> 'a list \<Rightarrow> 'a list" where
  "slice_to k xs = (if k \<ge> 0 then take (nat k) xs else take (length xs - nat (- k)) xs)"

text \<open>The loop that adds \<open>daysSince\<close> to every returned contact.\<close>

fun annotate :: "parser \<Rightarrow> clock \<Rightarrow> nat \<Rightarrow> doc list \<Rightarrow> error + (doc list \<times> nat)" where
  "annotate p clk n [] = Inr ([], n)"
| "annotate p clk n (c # cs) =
     (let lastv = parse_last p (dict_get c ''lastContactedAt'' PNone) in
      case days_since clk n lastv of
        Inl e \<Rightarrow> Inl e
      | Inr (v, n') \<Rightarrow>
          (case annotate p clk n' cs of
             Inl e \<Rightarrow> Inl e
           | Inr (rs, n'') \<Rightarrow> Inr (c(''daysSince'' \<mapsto> v) # rs, n'')))"

text \<open>
  \<open>get_suggestions(mode: str = "daily", count: int = 3)\<close>: a query parameter that is absent
  takes the default of the signature. \<open>target = count if mode == "daily" else count\<close>.
\<close>

definition mode_param :: "string option \<Rightarrow> string" where
  "mode_param mode_q = (case mode_q of None \<Rightarrow> ''daily'' | Some m \<Rightarrow> m)"

definition count_param :: "int option \<Rightarrow> int" where
  "count_param count_q = (case count_q of None \<Rightarrow> 3 | Some k \<Rightarrow> k)"

definition target_of :: "string \<Rightarrow> int \<Rightarrow> int" where
  "target_of mode count = (if mode = ''daily'' then count else count)"

definition get_suggestions ::
  "parser \<Rightarrow> clock \<Rightarrow> nat \<Rightarrow> database option \<Rightarrow> string option \<Rightarrow> int option
     \<Rightarrow> error + (doc list \<times> nat)" where
  "get_suggestions p clk n db mode_q count_q =
     (let mode = mode_param mode_q;
          count = count_param count_q
      in case collection db ''contact'' of
           Inl e \<Rightarrow> Inl e
         | Inr stored \<Rightarrow>
             (let items = map with_id stored in
              case keys_of p clk n items of
                Inl e \<Rightarrow> Inl e
              | Inr (keys, n1) \<Rightarrow>
                  (let items = map snd (sort_desc (zip keys items)) in
                   case due_of p clk n1 items of
                     Inl e \<Rightarrow> Inl e
                   | Inr (due, n2) \<Rightarrow>
                       (let fallback = items;
                            target = target_of mode count;
                            result = slice_to target (if due \<noteq> [] then due else fallback)
                        in annotate p clk n2 result))))"

section \<open>Settings\<close>

text \<open>\<open>find_one({"_id": k})\<close> and \<open>update_one({"_id": k}, {"$set": upd})\<close> on a collection.\<close>

fun find_one :: "bson_id \<Rightarrow> coll \<Rightarrow> (bson_id \<times> doc) option" where
  "find_one k [] = None"
| "find_one k (it # its) = (if fst it = k then Some it else find_one k its)"


definition default_settings :: doc where
  "default_settings =
     [''mode'' \<mapsto> PStr ''daily'', ''countDaily'' \<mapsto> PInt 3, ''countWeekly'' \<mapsto> PInt 10,
      ''defaultFrequencies'' \<mapsto> PList [PInt 7, PInt 30, PInt 90]]"

text \<open>\<open>get_settings\<close>: the stored document, created with the defaults when absent.\<close>

definition get_settings :: "database option \<Rightarrow> (error + doc) \<times> database option" where
  "get_settings db =
     (case db of
        None \<Rightarrow> (Inl (HTTPException 500), db)
      | Some d \<Rightarrow>
          (case find_one (StrKey ''default'') (d ''settings'') of
             Some it \<Rightarrow> (Inr (with_id it), db)
           | None \<Rightarrow>
               (Inr (with_id (StrKey ''default'', default_settings)),
                Some (d(''settings'' := d ''settings'' @ [(StrKey ''default'', default_settings)])))))"

text \<open>
  The resolution of the effective mode and count as the specification words it: an
  explicit override, else the stored settings (\<open>countDaily\<close> in daily mode, else
  \<open>countWeekly\<close>). It is compared with \<open>mode_param\<close>, \<open>count_param\<close> and \<open>target_of\<close>,
  which are what the code does.
\<close>

definition spec_effective_mode :: "doc \<Rightarrow> string option \<Rightarrow> pyval" where
  "spec_effective_mode settings mode_q =
     (case mode_q of Some m \<Rightarrow> PStr m | None \<Rightarrow> dict_get settings ''mode'' PNone)"

definition spec_effective_count :: "doc \<Rightarrow> string option \<Rightarrow> int option \<Rightarrow> pyval" where
  "spec_effective_count settings mode_q count_q =
     (case count_q of
        Some k \<Rightarrow> PInt k
      | None \<Rightarrow>
          if spec_effective_mode settings mode_q = PStr ''daily''
          then dict_get settings ''countDaily'' PNone
          else dict_get settings ''countWeekly'' PNone)"

section \<open>Recording an interaction\<close>









section \<open>Well-formed contacts and example data\<close>

text \<open>
  A contact the engine can evaluate without an exception: never contacted (absent,
  \<open>None\<close> or an unparseable string), or contacted at a timezone-aware datetime with an
  integer frequency (the default 30 when the field is missing).
\<close>

definition well_formed :: "parser \<Rightarrow> doc \<Rightarrow> bool" where
  "well_formed p c =
     (case parse_last p (dict_get c ''lastContactedAt'' PNone) of
        PNone \<Rightarrow> True
      | PDatetime d \<Rightarrow>
          tz_aware d \<and> (case dict_get c ''frequencyDays'' (PInt 30) of PInt f \<Rightarrow> True | _ \<Rightarrow> False)
      | _ \<Rightarrow> False)"

text \<open>
  Python's datetimes lie between the years 1 and 9999. With microseconds counted from
  0001-01-01T00:00 UTC and offsets of less than a day, the instant of an aware datetime
  lies in this range.
\<close>

definition in_range :: "int \<Rightarrow> bool" where
  "in_range t = (- us_per_day < t \<and> t < 3652060 * us_per_day)"

text \<open>The three contacts of \<open>seed_demo\<close>, for the clock readings \<open>t1\<close> and \<open>t2\<close>.\<close>

definition days :: "int \<Rightarrow> int" where
  "days k = k * us_per_day"

definition seed_alex :: "int \<Rightarrow> doc" where
  "seed_alex t =
     [''fullName'' \<mapsto> PStr ''Alex Johnson'', ''relationship'' \<mapsto> PStr ''friend'',
      ''phoneNumber'' \<mapsto> PStr ''+15551234567'', ''email'' \<mapsto> PStr ''alex@example.com'',
      ''frequencyDays'' \<mapsto> PInt 14,
      ''lastContactedAt'' \<mapsto> PDatetime (Datetime True (t - days 30)),
      ''priority'' \<mapsto> PInt 3]"

definition seed_jamie :: "int \<Rightarrow> doc" where
  "seed_jamie t =
     [''fullName'' \<mapsto> PStr ''Jamie Lee'', ''relationship'' \<mapsto> PStr ''business'',
      ''phoneNumber'' \<mapsto> PStr ''+15557654321'', ''email'' \<mapsto> PStr ''jamie@work.co'',
      ''frequencyDays'' \<mapsto> PInt 30,
      ''lastContactedAt'' \<mapsto> PDatetime (Datetime True (t - days 90)),
      ''priority'' \<mapsto> PInt 4]"

definition seed_taylor :: doc where
  "seed_taylor =
     [''fullName'' \<mapsto> PStr ''Taylor Kim'', ''relationship'' \<mapsto> PStr ''family'',
      ''phoneNumber'' \<mapsto> PStr ''+15559876543'', ''email'' \<mapsto> PNone,
      ''frequencyDays'' \<mapsto> PInt 7,
      ''lastContactedAt'' \<mapsto> PNone,
      ''priority'' \<mapsto> PInt 5]"

text \<open>
  An example run: the clock advances by one microsecond per reading from a fixed
  instant; the parser knows two strings, one with an offset and one without.
\<close>

definition demo_now :: int where
  "demo_now = days 739000"

definition demo_clock :: clock where
  "demo_clock k = demo_now + int k"

definition demo_parser :: parser where
  "demo_parser s =
     (if s = ''2024-01-01T00:00:00+00:00'' then Some (Datetime True (days 738885))
      else if s = ''2024-01-01T00:00:00'' then Some (Datetime False (days 738885))
      else None)"


definition oid_a :: string where "oid_a = ''65a000000000000000000001''"
definition oid_b :: string where "oid_b = ''65a000000000000000000002''"
definition oid_c :: string where "oid_c = ''65a000000000000000000003''"
definition oid_d :: string where "oid_d = ''65a000000000000000000004''"

definition demo_db :: database where
  "demo_db name =
     (if name = ''contact''
      then [(OidKey oid_a, seed_alex demo_now), (OidKey oid_b, seed_jamie demo_now),
            (OidKey oid_c, seed_taylor)]
      else [])"

text \<open>Further example data: a fourth contact, stored settings, an interaction request.\<close>

definition demo_settings :: doc where
  "demo_settings = default_settings(''mode'' \<mapsto> PStr ''weekly'')"

definition demo_db4 :: database where
  "demo_db4 name =
     (if name = ''contact''
      then [(OidKey oid_a, seed_alex demo_now), (OidKey oid_b, seed_jamie demo_now),
            (OidKey oid_c, seed_taylor), (OidKey oid_d, seed_taylor)]
      else if name = ''settings'' then [(StrKey ''default'', demo_settings)]
      else [])"


text \<open>A contact last contacted at \<open>t\<close> whose \<open>frequencyDays\<close> is \<open>f\<close>.\<close>

definition contact_of :: "int \<Rightarrow> int \<Rightarrow> doc" where
  "contact_of f t =
     [''fullName'' \<mapsto> PStr ''Sam'', ''frequencyDays'' \<mapsto> PInt f,
      ''lastContactedAt'' \<mapsto> PDatetime (Datetime True t)]"

text \<open>The number of contacts in a response.\<close>

definition result_length :: "error + (doc list \<times> nat) \<Rightarrow> error + nat" where
  "result_length r = (case r of Inl e \<Rightarrow> Inl e | Inr x \<Rightarrow> Inr (length (fst x)))"

text \<open>The value of one field in every contact of a response, in order.\<close>

definition result_column :: "string \<Rightarrow> error + (doc list \<times> nat) \<Rightarrow> error + pyval option list" where
  "result_column field r = (case r of Inl e \<Rightarrow> Inl e | Inr x \<Rightarrow> Inr (map (\<lambda>d. d field) (fst x)))"


text \<open>A store in which every contact was contacted within its frequency, and a clock that stands still.\<close>

definition demo_db_recent :: database where
  "demo_db_recent name =
     (if name = ''contact''
      then [(OidKey oid_a, contact_of 30 (demo_now - days 3)), (OidKey oid_b, contact_of 7 demo_now)]
      else [])"

definition frozen_clock :: clock where
  "frozen_clock k = demo_now"

text \<open>A store with a never-contacted contact and one whose frequency is far below zero; an empty store.\<close>

definition demo_db_extreme :: database where
  "demo_db_extreme name =
     (if name = ''contact''
      then [(OidKey oid_c, seed_taylor), (OidKey oid_d, contact_of (- 2000000000) demo_now)]
      else [])"

definition empty_db :: database where
  "empty_db name = []"

text \<open>
  A contact whose \<open>lastContactedAt\<close> carries no timezone, as \<open>ContactIn\<close> accepts it
  (\<open>"2024-01-01T00:00:00"\<close>), held as a datetime and as the string; and a store with a
  never-contacted contact and that one.
\<close>

definition naive_contact :: doc where
  "naive_contact =
     [''fullName'' \<mapsto> PStr ''Robin'', ''frequencyDays'' \<mapsto> PInt 30,
      ''lastContactedAt'' \<mapsto> PDatetime (Datetime False (days 738885))]"

definition naive_string_contact :: doc where
  "naive_string_contact =
     [''fullName'' \<mapsto> PStr ''Robin'', ''frequencyDays'' \<mapsto> PInt 30,
      ''lastContactedAt'' \<mapsto> PStr ''2024-01-01T00:00:00'']"

definition naive_db :: database where
  "naive_db name =
     (if name = ''contact''
      then [(OidKey oid_c, seed_taylor), (OidKey oid_d, naive_contact)]
      else [])"

section \<open>Properties of the due evaluator and the overdue ranker\<close>

lemma parse_last_simps:
  "parse_last p PNone = PNone"
  "parse_last p (PInt i) = PInt i"
  "parse_last p (PDatetime d) = PDatetime d"
  "parse_last p (PList xs) = PList xs"
  "parse_last p (PStr s) = (case p s of None \<Rightarrow> PNone | Some d \<Rightarrow> PDatetime d)"
  by (simp_all add: parse_last_def)

lemma is_due_never:
  "parse_last p (dict_get c ''lastContactedAt'' PNone) = PNone \<Longrightarrow>
   is_due p clk n c = Inr (True, n)"
  by (simp add: is_due_def)

lemma is_due_datetime:
  "parse_last p (dict_get c ''lastContactedAt'' PNone) = PDatetime d \<Longrightarrow> tz_aware d \<Longrightarrow>
   dict_get c ''frequencyDays'' (PInt 30) = PInt f \<Longrightarrow>
   is_due p clk n c = Inr (f \<le> (clk n - micros d) div us_per_day, Suc n)"
  by (simp add: is_due_def now_utc_def sub_days_def int_ge_def)

lemma overdue_score_never:
  "parse_last p (dict_get c ''lastContactedAt'' PNone) = PNone \<Longrightarrow>
   overdue_score p clk n c = Inr (never_score, n)"
  by (simp add: overdue_score_def)

lemma overdue_score_datetime:
  "parse_last p (dict_get c ''lastContactedAt'' PNone) = PDatetime d \<Longrightarrow> tz_aware d \<Longrightarrow>
   dict_get c ''frequencyDays'' (PInt 30) = PInt f \<Longrightarrow>
   overdue_score p clk n c = Inr ((clk n - micros d) div us_per_day - f, Suc n)"
  by (simp add: overdue_score_def now_utc_def sub_days_def int_sub_def)

lemma days_simps:
  "(a - (a - f * us_per_day)) div us_per_day = f"
  "(a - (a - days k)) div us_per_day = k"
  by (simp_all add: us_per_day_def days_def)

text \<open>
  The due rule where the subtraction is defined. A contact whose \<open>lastContactedAt\<close> is a
  timezone-aware datetime, stored as such or as a string that parses to one, and whose
  \<open>frequencyDays\<close> is an integer \<open>f\<close> is due exactly when the whole days elapsed, the floor
  of \<open>now - lastContactedAt\<close> in days, are at least \<open>f\<close>; \<open>now\<close> is the reading of the clock
  that \<open>is_due\<close> takes. At \<open>lastContactedAt = now - f days\<close> the contact is due, at
  \<open>now - (f - 1) days\<close> it is not.
\<close>

lemma is_due_iff_floor_days:
  assumes freq: "c ''frequencyDays'' = Some (PInt f)"
      and lastc: "c ''lastContactedAt'' = Some lv"
      and lv: "lv = PDatetime d \<or> (\<exists>s. lv = PStr s \<and> p s = Some d)"
      and aware: "tz_aware d"
  shows "is_due p clk n c = Inr (f \<le> (clk n - micros d) div us_per_day, Suc n)
       \<and> (micros d = clk n - f * us_per_day \<longrightarrow> is_due p clk n c = Inr (True, Suc n))
       \<and> (micros d = clk n - (f - 1) * us_per_day \<longrightarrow> is_due p clk n c = Inr (False, Suc n))"
proof -
  have pl: "parse_last p (dict_get c ''lastContactedAt'' PNone) = PDatetime d"
    using lastc lv by (auto simp: dict_get_def parse_last_simps)
  have fr: "dict_get c ''frequencyDays'' (PInt 30) = PInt f"
    using freq by (simp add: dict_get_def)
  have main: "is_due p clk n c = Inr (f \<le> (clk n - micros d) div us_per_day, Suc n)"
    by (rule is_due_datetime [OF pl aware fr])
  have b1: "(clk n - (clk n - f * us_per_day)) div us_per_day = f"
    by (simp add: us_per_day_def)
  have b2: "(clk n - (clk n - (f - 1) * us_per_day)) div us_per_day = f - 1"
    by (simp add: us_per_day_def)
  show ?thesis using main b1 b2 by simp
qed

lemma is_due_iff_floor_days_example:
  "is_due demo_parser demo_clock 0 (seed_alex (demo_now + days 16)) = Inr (True, Suc 0)
   \<and> is_due demo_parser demo_clock 0 (seed_alex (demo_now + days 17)) = Inr (False, Suc 0)
   \<and> is_due demo_parser demo_clock 0
        [''frequencyDays'' \<mapsto> PInt 115, ''lastContactedAt'' \<mapsto> PStr ''2024-01-01T00:00:00+00:00'']
      = Inr (True, Suc 0)"
proof -
  have a: "demo_now + days 16 - days 30 = demo_clock 0 - 14 * us_per_day"
    by (simp add: demo_clock_def days_def)
  have b: "demo_now + days 17 - days 30 = demo_clock 0 - (14 - 1) * us_per_day"
    by (simp add: demo_clock_def days_def)
  have c: "(demo_clock 0 - days 738885) div us_per_day = 115"
    by (simp add: demo_clock_def demo_now_def days_def us_per_day_def)
  have p: "demo_parser ''2024-01-01T00:00:00+00:00'' = Some (Datetime True (days 738885))"
    by (simp add: demo_parser_def)
  show ?thesis
    using is_due_iff_floor_days [of "seed_alex (demo_now + days 16)" 14
        "PDatetime (Datetime True (demo_now + days 16 - days 30))"
        "Datetime True (demo_now + days 16 - days 30)" demo_parser demo_clock 0]
      is_due_iff_floor_days [of "seed_alex (demo_now + days 17)" 14
        "PDatetime (Datetime True (demo_now + days 17 - days 30))"
        "Datetime True (demo_now + days 17 - days 30)" demo_parser demo_clock 0]
      is_due_iff_floor_days [of
        "[''frequencyDays'' \<mapsto> PInt 115, ''lastContactedAt'' \<mapsto> PStr ''2024-01-01T00:00:00+00:00'']"
        115 "PStr ''2024-01-01T00:00:00+00:00''" "Datetime True (days 738885)"
        demo_parser demo_clock 0]
      a b c p
    by (simp add: seed_alex_def)
qed

subsection \<open>Timestamps without a timezone\<close>

lemma is_due_naive:
  "parse_last p (dict_get c ''lastContactedAt'' PNone) = PDatetime d \<Longrightarrow> \<not> tz_aware d \<Longrightarrow>
   is_due p clk n c = Inl TypeError"
  by (simp add: is_due_def now_utc_def sub_days_def)

lemma overdue_score_naive:
  "parse_last p (dict_get c ''lastContactedAt'' PNone) = PDatetime d \<Longrightarrow> \<not> tz_aware d \<Longrightarrow>
   overdue_score p clk n c = Inl TypeError"
  by (simp add: overdue_score_def now_utc_def sub_days_def)

text \<open>
  Claim C4. For every contact with a present \<open>lastContactedAt\<close> and \<open>frequencyDays \<ge> 1\<close>,
  \<open>is_due\<close> should be true exactly when the whole days elapsed are at least
  \<open>frequencyDays\<close>. The code breaks this for a \<open>lastContactedAt\<close> without a timezone: the
  contact was last contacted 115 whole days before the clock reading and its frequency is
  30, so it is due; \<open>is_due\<close> raises TypeError instead, for the datetime and for the
  string that parses to it.
\<close>

theorem is_due_naive_raises:
  "is_due demo_parser demo_clock 0 naive_contact = Inl TypeError
   \<and> is_due demo_parser demo_clock 0 naive_string_contact = Inl TypeError
   \<and> (demo_clock 0 - days 738885) div us_per_day = 115"
proof -
  have a: "parse_last demo_parser (dict_get naive_contact ''lastContactedAt'' PNone)
             = PDatetime (Datetime False (days 738885))"
    by (simp add: naive_contact_def dict_get_def parse_last_simps)
  have b: "parse_last demo_parser (dict_get naive_string_contact ''lastContactedAt'' PNone)
             = PDatetime (Datetime False (days 738885))"
    by (simp add: naive_string_contact_def dict_get_def parse_last_simps demo_parser_def)
  have c: "(demo_clock 0 - days 738885) div us_per_day = 115"
    by (simp add: demo_clock_def demo_now_def days_def us_per_day_def)
  show ?thesis
    using is_due_naive [OF a] is_due_naive [OF b] c by simp
qed

text \<open>
  Claim C8. A contact whose \<open>lastContactedAt\<close> is a string that \<open>fromisoformat\<close> rejects is
  treated as never contacted: \<open>is_due\<close> returns true and \<open>overdue_score\<close> returns the
  sentinel, neither raises nor reads the clock, and both give what they give for the same
  contact with the field absent or \<open>None\<close>.
\<close>

theorem malformed_last_as_never:
  assumes "c ''lastContactedAt'' = Some (PStr s)" and "p s = None"
  shows "is_due p clk n c = Inr (True, n)
       \<and> overdue_score p clk n c = Inr (never_score, n)
       \<and> is_due p clk n c = is_due p clk n (c(''lastContactedAt'' := None))
       \<and> is_due p clk n c = is_due p clk n (c(''lastContactedAt'' \<mapsto> PNone))
       \<and> overdue_score p clk n c = overdue_score p clk n (c(''lastContactedAt'' := None))
       \<and> overdue_score p clk n c = overdue_score p clk n (c(''lastContactedAt'' \<mapsto> PNone))"
  using assms
  by (simp add: is_due_def overdue_score_def dict_get_def parse_last_simps)

theorem malformed_last_as_never_witness:
  "is_due demo_parser demo_clock 5 (seed_taylor(''lastContactedAt'' \<mapsto> PStr ''yesterday''))
     = Inr (True, 5)
   \<and> overdue_score demo_parser demo_clock 5 (seed_taylor(''lastContactedAt'' \<mapsto> PStr ''yesterday''))
     = Inr (1000000000, 5)"
proof -
  have "demo_parser ''yesterday'' = None"
    by (simp add: demo_parser_def)
  then show ?thesis
    using malformed_last_as_never [of "seed_taylor(''lastContactedAt'' \<mapsto> PStr ''yesterday'')"
        "''yesterday''" demo_parser demo_clock 5]
    by (simp add: never_score_def)
qed

text \<open>
  Claim C10. For a contact record without the field \<open>frequencyDays\<close>, \<open>is_due\<close> and
  \<open>overdue_score\<close> give what they give for the same record with \<open>frequencyDays = 30\<close>;
  with a timezone-aware \<open>lastContactedAt\<close> they return, without an exception, the
  comparison of the elapsed whole days with 30 and their difference.
\<close>

theorem missing_frequency_default_30:
  assumes "c ''frequencyDays'' = None"
  shows "is_due p clk n c = is_due p clk n (c(''frequencyDays'' \<mapsto> PInt 30))
       \<and> overdue_score p clk n c = overdue_score p clk n (c(''frequencyDays'' \<mapsto> PInt 30))
       \<and> (\<forall>t. c ''lastContactedAt'' = Some (PDatetime (Datetime True t)) \<longrightarrow>
             is_due p clk n c = Inr (30 \<le> (clk n - t) div us_per_day, Suc n)
           \<and> overdue_score p clk n c = Inr ((clk n - t) div us_per_day - 30, Suc n))"
  using assms
  by (simp add: is_due_def overdue_score_def dict_get_def parse_last_simps now_utc_def
      sub_days_def int_ge_def int_sub_def)

theorem missing_frequency_default_30_witness:
  "is_due demo_parser demo_clock 0 [''lastContactedAt'' \<mapsto> PDatetime (Datetime True (demo_now - days 30))]
     = Inr (True, Suc 0)
   \<and> overdue_score demo_parser demo_clock 0
        [''lastContactedAt'' \<mapsto> PDatetime (Datetime True (demo_now - days 30))]
     = Inr (0, Suc 0)
   \<and> is_due demo_parser demo_clock 0 [''lastContactedAt'' \<mapsto> PDatetime (Datetime True (demo_now - days 29))]
     = Inr (False, Suc 0)"
proof -
  let ?c1 = "[''lastContactedAt'' \<mapsto> PDatetime (Datetime True (demo_now - days 30))]"
  let ?c2 = "[''lastContactedAt'' \<mapsto> PDatetime (Datetime True (demo_now - days 29))]"
  have a: "(demo_clock 0 - (demo_now - days 30)) div us_per_day = 30"
    by (simp add: demo_clock_def days_def us_per_day_def)
  have b: "(demo_clock 0 - (demo_now - days 29)) div us_per_day = 29"
    by (simp add: demo_clock_def days_def us_per_day_def)
  have f1: "?c1 ''frequencyDays'' = None" and f2: "?c2 ''frequencyDays'' = None"
    by simp_all
  have l1: "?c1 ''lastContactedAt'' = Some (PDatetime (Datetime True (demo_now - days 30)))"
    and l2: "?c2 ''lastContactedAt'' = Some (PDatetime (Datetime True (demo_now - days 29)))"
    by simp_all
  have r1: "is_due demo_parser demo_clock 0 ?c1
              = Inr (30 \<le> (demo_clock 0 - (demo_now - days 30)) div us_per_day, Suc 0)
          \<and> overdue_score demo_parser demo_clock 0 ?c1
              = Inr ((demo_clock 0 - (demo_now - days 30)) div us_per_day - 30, Suc 0)"
    using missing_frequency_default_30 [of ?c1 demo_parser demo_clock 0] f1 l1 by blast
  have r2: "is_due demo_parser demo_clock 0 ?c2
              = Inr (30 \<le> (demo_clock 0 - (demo_now - days 29)) div us_per_day, Suc 0)"
    using missing_frequency_default_30 [of ?c2 demo_parser demo_clock 0] f2 l2 by blast
  show ?thesis
    using r1 r2 by (simp only: a b) simp
qed

section \<open>The sentinel score\<close>

lemma sort_desc_descending:
  "sorted_wrt (\<lambda>x y. fst y \<le> fst x) (sort_desc kcs)"
  using sorted_sort_key [of "\<lambda>kc. - fst kc" kcs]
  by (simp add: sort_desc_def sorted_wrt_map)

text \<open>
  The sentinel within the data model. The score of a never-contacted contact is the
  finite constant \<open>1e9\<close>. It is strictly greater than the score of a contact with a
  timezone-aware \<open>lastContactedAt\<close> and an integer \<open>frequencyDays \<ge> 1\<close>, for all instants of
  Python's datetime range; so wherever the two scores are sorted by \<open>sort_desc\<close>, the
  never-contacted contact stands at an earlier position.
\<close>

lemma never_contacted_outscores:
  assumes a: "a ''lastContactedAt'' = None \<or> a ''lastContactedAt'' = Some PNone"
      and b: "b ''lastContactedAt'' = Some (PDatetime d)" and aware: "tz_aware d"
      and freq: "b ''frequencyDays'' = Some (PInt f)" and f: "1 \<le> f"
      and now: "in_range (clk m)" and d: "in_range (micros d)"
  shows "overdue_score p clk n a = Inr (never_score, n)
       \<and> overdue_score p clk m b = Inr ((clk m - micros d) div us_per_day - f, Suc m)
       \<and> (clk m - micros d) div us_per_day - f < never_score
       \<and> (\<forall>kcs i j. i < length kcs \<and> j < length kcs
             \<and> sort_desc kcs ! i = (never_score, a)
             \<and> sort_desc kcs ! j = ((clk m - micros d) div us_per_day - f, b) \<longrightarrow> i < j)"
proof -
  have pa: "parse_last p (dict_get a ''lastContactedAt'' PNone) = PNone"
    using a by (auto simp: dict_get_def parse_last_simps)
  have pb: "parse_last p (dict_get b ''lastContactedAt'' PNone) = PDatetime d"
    using b by (simp add: dict_get_def parse_last_simps)
  have fb: "dict_get b ''frequencyDays'' (PInt 30) = PInt f"
    using freq by (simp add: dict_get_def)
  have "clk m - micros d < 3652061 * 86400000000"
    using now d by (simp add: in_range_def us_per_day_def)
  then have "(clk m - micros d) div 86400000000 < 3652061"
    by (simp add: div_less_iff_less_mult)
  then have lt: "(clk m - micros d) div us_per_day - f < never_score"
    using f by (simp add: us_per_day_def never_score_def)
  have pos: "i < j"
    if "i < length kcs" "j < length kcs" "sort_desc kcs ! i = (never_score, a)"
      "sort_desc kcs ! j = ((clk m - micros d) div us_per_day - f, b)" for kcs i j
  proof (rule ccontr)
    assume "\<not> i < j"
    moreover have "i \<noteq> j"
      using that lt by auto
    ultimately have "j < i" by simp
    moreover have "i < length (sort_desc kcs)"
      using that(1) by (simp add: sort_desc_def)
    ultimately have "fst (sort_desc kcs ! i) \<le> fst (sort_desc kcs ! j)"
      using sort_desc_descending [of kcs] by (simp add: sorted_wrt_iff_nth_less)
    then show False
      using that lt by simp
  qed
  have rank: "\<forall>kcs i j. i < length kcs \<and> j < length kcs
             \<and> sort_desc kcs ! i = (never_score, a)
             \<and> sort_desc kcs ! j = ((clk m - micros d) div us_per_day - f, b) \<longrightarrow> i < j"
    using pos by blast
  show ?thesis
    using overdue_score_never [OF pa, of clk n] overdue_score_datetime [OF pb aware fb, of clk m]
      lt rank
    by (intro conjI)
qed

lemma never_contacted_outscores_example:
  "overdue_score demo_parser demo_clock 0 seed_taylor = Inr (1000000000, 0)
   \<and> overdue_score demo_parser demo_clock 0 (seed_jamie demo_now) = Inr (60, Suc 0)
   \<and> (60::int) < 1000000000"
proof -
  have r: "in_range (demo_clock 0)" "in_range (micros (Datetime True (demo_now - days 90)))"
    by (simp_all add: in_range_def demo_clock_def demo_now_def days_def us_per_day_def)
  have e: "(demo_clock 0 - micros (Datetime True (demo_now - days 90))) div us_per_day = 90"
    by (simp add: demo_clock_def days_def us_per_day_def)
  have h: "seed_taylor ''lastContactedAt'' = None \<or> seed_taylor ''lastContactedAt'' = Some PNone"
    "seed_jamie demo_now ''lastContactedAt'' = Some (PDatetime (Datetime True (demo_now - days 90)))"
    "tz_aware (Datetime True (demo_now - days 90))"
    "seed_jamie demo_now ''frequencyDays'' = Some (PInt 30)" "(1::int) \<le> 30"
    by (simp_all add: seed_taylor_def seed_jamie_def)
  from never_contacted_outscores [of seed_taylor "seed_jamie demo_now"
      "Datetime True (demo_now - days 90)" 30 demo_clock 0 demo_parser 0, OF h r]
  have "overdue_score demo_parser demo_clock 0 seed_taylor = Inr (never_score, 0)"
    "overdue_score demo_parser demo_clock 0 (seed_jamie demo_now)
       = Inr ((demo_clock 0 - micros (Datetime True (demo_now - days 90))) div us_per_day - 30, Suc 0)"
    by blast+
  then show ?thesis
    unfolding e by (simp add: never_score_def)
qed

text \<open>
  Outside the data model the sentinel can be passed: \<open>ContactIn\<close> accepts any integer as
  \<open>frequencyDays\<close>, and a contact that was contacted just now with
  \<open>frequencyDays = -2000000000\<close> scores twice the sentinel and is suggested before a
  never-contacted one.
\<close>

lemma sentinel_is_finite_example:
  "overdue_score demo_parser demo_clock 0 seed_taylor = Inr (1000000000, 0)
   \<and> overdue_score demo_parser demo_clock 0 (contact_of (- 2000000000) demo_now)
       = Inr (2000000000, Suc 0)
   \<and> result_column ''fullName''
        (get_suggestions demo_parser demo_clock 0 (Some demo_db_extreme) None None)
       = Inr [Some (PStr ''Sam''), Some (PStr ''Taylor Kim'')]"
  by (simp add: overdue_score_def is_due_def days_since_def get_suggestions_def
      collection_def with_id_def sort_desc_def slice_to_def mode_param_def count_param_def
      target_of_def result_column_def dict_get_def parse_last_simps now_utc_def
      sub_days_def int_sub_def int_ge_def never_score_def demo_db_extreme_def
      seed_taylor_def contact_of_def demo_clock_def us_per_day_def)

section \<open>Mode and count of a suggestion request\<close>

lemma target_of_count: "target_of mode count = count"
  by (simp add: target_of_def)

text \<open>
  Claim C1, as amended. \<open>get_suggestions\<close> never reads the stored settings. An absent
  \<open>count\<close> is 3 whatever the mode, an absent \<open>mode\<close> is \<open>"daily"\<close>, the target is the count
  in either mode, and neither the mode nor the settings collection changes the response.
\<close>

theorem suggestions_ignore_settings:
  "count_param None = 3
   \<and> mode_param None = ''daily''
   \<and> target_of mode (count_param count_q) = count_param count_q
   \<and> get_suggestions p clk n db mode_q None = get_suggestions p clk n db mode_q' (Some 3)
   \<and> get_suggestions p clk n db mode_q count_q = get_suggestions p clk n db None count_q
   \<and> get_suggestions p clk n (Some (d(''settings'' := s))) mode_q count_q
       = get_suggestions p clk n (Some d) mode_q count_q"
proof -
  have a: "get_suggestions p clk n db mode_q None = get_suggestions p clk n db mode_q' (Some 3)"
    unfolding get_suggestions_def target_of_count count_param_def by simp
  have b: "get_suggestions p clk n db mode_q count_q = get_suggestions p clk n db None count_q"
    unfolding get_suggestions_def target_of_count by simp
  have c: "get_suggestions p clk n (Some (d(''settings'' := s))) mode_q count_q
             = get_suggestions p clk n (Some d) mode_q count_q"
    unfolding get_suggestions_def collection_def by simp
  show ?thesis
    using a b c by (simp add: count_param_def mode_param_def target_of_count)
qed

text \<open>
  The claim as stated fails: with \<open>mode = weekly\<close> and \<open>countWeekly = 10\<close> in the stored
  settings, and four contacts that are all due, a request without parameters should
  return all four; the code returns three.
\<close>

theorem suggestions_ignore_settings_counterexample:
  "fst (get_settings (Some demo_db4)) = Inr (with_id (StrKey ''default'', demo_settings))
   \<and> spec_effective_mode (with_id (StrKey ''default'', demo_settings)) None = PStr ''weekly''
   \<and> spec_effective_count (with_id (StrKey ''default'', demo_settings)) None None = PInt 10
   \<and> mode_param None = ''daily''
   \<and> target_of (mode_param None) (count_param None) = 3
   \<and> length (demo_db4 ''contact'') = 4
   \<and> result_length (get_suggestions demo_parser demo_clock 0 (Some demo_db4) None None) = Inr 3
   \<and> result_length (get_suggestions demo_parser demo_clock 0 (Some demo_db4) (Some ''weekly'') None)
       = Inr 3"
proof -
  have s: "fst (get_settings (Some demo_db4)) = Inr (with_id (StrKey ''default'', demo_settings))"
    by (simp add: get_settings_def demo_db4_def)
  have m: "spec_effective_mode (with_id (StrKey ''default'', demo_settings)) None = PStr ''weekly''"
    by (simp add: spec_effective_mode_def with_id_def demo_settings_def dict_get_def)
  have c: "spec_effective_count (with_id (StrKey ''default'', demo_settings)) None None = PInt 10"
    by (simp add: spec_effective_count_def m)
       (simp add: with_id_def demo_settings_def default_settings_def dict_get_def)
  have k: "keys_of demo_parser demo_clock 0 (map with_id (demo_db4 ''contact''))
             = Inr ([16, 60, 1000000000, 1000000000], 2)"
    by (simp add: demo_db4_def overdue_score_def with_id_def dict_get_def parse_last_simps
        seed_alex_def seed_jamie_def seed_taylor_def now_utc_def sub_days_def int_sub_def
        never_score_def demo_clock_def days_def us_per_day_def)
  have g: "result_length (get_suggestions demo_parser demo_clock 0 (Some demo_db4) mq None) = Inr 3"
    for mq
    unfolding get_suggestions_def target_of_count
    by (simp add: collection_def k sort_desc_def Let_def)
       (simp add: demo_db4_def is_due_def days_since_def with_id_def dict_get_def
        parse_last_simps seed_alex_def seed_jamie_def seed_taylor_def now_utc_def sub_days_def
        int_ge_def demo_clock_def days_def us_per_day_def slice_to_def count_param_def
        target_of_def result_length_def)
  show ?thesis
    using s m c g by (simp add: mode_param_def count_param_def target_of_def demo_db4_def)
qed

section \<open>Recording an interaction\<close>






section \<open>Sorting by score\<close>







lemma set_sorted_items:
  "length ks = length xs \<Longrightarrow> set (map snd (sort_desc (zip ks xs))) = set xs"
  by (simp add: sort_desc_def set_map [symmetric] del: set_map)
     (metis map_snd_zip set_map set_sort)

lemma length_sorted_items:
  "length ks = length xs \<Longrightarrow> length (map snd (sort_desc (zip ks xs))) = length xs"
  by (simp add: sort_desc_def)

section \<open>The loops of the suggestion engine\<close>

lemma overdue_score_reads:
  "overdue_score p clk n c = Inr (s, m) \<Longrightarrow> n \<le> m \<and> m \<le> Suc n"
  by (auto simp: overdue_score_def now_utc_def Let_def split: if_splits sum.splits)

lemma is_due_reads:
  "is_due p clk n c = Inr (b, m) \<Longrightarrow> n \<le> m \<and> m \<le> Suc n"
  by (auto simp: is_due_def now_utc_def Let_def split: if_splits sum.splits)

lemma days_since_reads:
  "days_since clk n x = Inr (v, m) \<Longrightarrow> n \<le> m \<and> m \<le> Suc n"
  by (auto simp: days_since_def now_utc_def split: if_splits sum.splits)

lemma keys_of_Inr:
  "keys_of p clk n cs = Inr (ks, n') \<Longrightarrow>
   n \<le> n' \<and> n' \<le> n + length cs \<and>
   list_all2 (\<lambda>c k. \<exists>j m. n \<le> j \<and> m \<le> n' \<and> overdue_score p clk j c = Inr (k, m)) cs ks"
proof (induction cs arbitrary: n ks)
  case Nil
  then show ?case by simp
next
  case (Cons c cs)
  from Cons.prems obtain s n1 ss where
    s: "overdue_score p clk n c = Inr (s, n1)" and
    r: "keys_of p clk n1 cs = Inr (ss, n')" and ks: "ks = s # ss"
    by (auto split: sum.splits)
  from Cons.IH [OF r] have le: "n1 \<le> n'" "n' \<le> n1 + length cs"
    and all: "list_all2 (\<lambda>c k. \<exists>j m. n1 \<le> j \<and> m \<le> n' \<and> overdue_score p clk j c = Inr (k, m)) cs ss"
    by simp_all
  from overdue_score_reads [OF s] have n1: "n \<le> n1" "n1 \<le> Suc n"
    by simp_all
  have "list_all2 (\<lambda>c k. \<exists>j m. n \<le> j \<and> m \<le> n' \<and> overdue_score p clk j c = Inr (k, m)) cs ss"
    by (rule list_all2_mono [OF all]) (use n1(1) in \<open>meson le_trans\<close>)
  moreover have "\<exists>j m. n \<le> j \<and> m \<le> n' \<and> overdue_score p clk j c = Inr (s, m)"
    using s le(1) by blast
  ultimately show ?case
    using ks le n1 by simp
qed

lemma due_of_Inr:
  "due_of p clk n cs = Inr (ds, n') \<Longrightarrow>
   n \<le> n' \<and> n' \<le> n + length cs \<and>
   (\<exists>bs. length bs = length cs \<and> ds = map fst (filter snd (zip cs bs)) \<and>
      list_all2 (\<lambda>c b. \<exists>j m. n \<le> j \<and> m \<le> n' \<and> is_due p clk j c = Inr (b, m)) cs bs)"
proof (induction cs arbitrary: n ds)
  case Nil
  then show ?case by simp
next
  case (Cons c cs)
  from Cons.prems obtain b n1 ds' where
    b: "is_due p clk n c = Inr (b, n1)" and
    r: "due_of p clk n1 cs = Inr (ds', n')" and ds: "ds = (if b then c # ds' else ds')"
    by (auto split: sum.splits)
  from Cons.IH [OF r] obtain bs where le: "n1 \<le> n'" "n' \<le> n1 + length cs"
    and bs: "length bs = length cs" "ds' = map fst (filter snd (zip cs bs))"
    and all: "list_all2 (\<lambda>c b. \<exists>j m. n1 \<le> j \<and> m \<le> n' \<and> is_due p clk j c = Inr (b, m)) cs bs"
    by auto
  from is_due_reads [OF b] have n1: "n \<le> n1" "n1 \<le> Suc n"
    by simp_all
  have "list_all2 (\<lambda>c b. \<exists>j m. n \<le> j \<and> m \<le> n' \<and> is_due p clk j c = Inr (b, m)) cs bs"
    by (rule list_all2_mono [OF all]) (use n1(1) in \<open>meson le_trans\<close>)
  moreover have "\<exists>j m. n \<le> j \<and> m \<le> n' \<and> is_due p clk j c = Inr (b, m)"
    using b le(1) by blast
  ultimately have
    "length (b # bs) = length (c # cs) \<and> ds = map fst (filter snd (zip (c # cs) (b # bs))) \<and>
     list_all2 (\<lambda>c b. \<exists>j m. n \<le> j \<and> m \<le> n' \<and> is_due p clk j c = Inr (b, m)) (c # cs) (b # bs)"
    using bs ds by simp
  then show ?case
    using le n1 by (intro conjI exI [of _ "b # bs"]) simp_all
qed

lemma annotate_Inr:
  "annotate p clk n cs = Inr (rs, n') \<Longrightarrow>
   n \<le> n' \<and>
   list_all2 (\<lambda>c r. \<exists>v j m. n \<le> j \<and> m \<le> n' \<and>
       days_since clk j (parse_last p (dict_get c ''lastContactedAt'' PNone)) = Inr (v, m) \<and>
       r = c(''daysSince'' \<mapsto> v)) cs rs"
proof (induction cs arbitrary: n rs)
  case Nil
  then show ?case by simp
next
  case (Cons c cs)
  from Cons.prems obtain v n1 rs' where
    v: "days_since clk n (parse_last p (dict_get c ''lastContactedAt'' PNone)) = Inr (v, n1)" and
    r: "annotate p clk n1 cs = Inr (rs', n')" and rs: "rs = c(''daysSince'' \<mapsto> v) # rs'"
    by (auto simp: Let_def split: sum.splits)
  from Cons.IH [OF r] have le: "n1 \<le> n'"
    and all: "list_all2 (\<lambda>c r. \<exists>v j m. n1 \<le> j \<and> m \<le> n' \<and>
       days_since clk j (parse_last p (dict_get c ''lastContactedAt'' PNone)) = Inr (v, m) \<and>
       r = c(''daysSince'' \<mapsto> v)) cs rs'"
    by blast+
  from days_since_reads [OF v] have n1: "n \<le> n1"
    by simp
  have "list_all2 (\<lambda>c r. \<exists>v j m. n \<le> j \<and> m \<le> n' \<and>
       days_since clk j (parse_last p (dict_get c ''lastContactedAt'' PNone)) = Inr (v, m) \<and>
       r = c(''daysSince'' \<mapsto> v)) cs rs'"
    by (rule list_all2_mono [OF all]) (use n1 in \<open>blast intro: le_trans\<close>)
  moreover have "\<exists>v' j m. n \<le> j \<and> m \<le> n' \<and>
       days_since clk j (parse_last p (dict_get c ''lastContactedAt'' PNone)) = Inr (v', m) \<and>
       c(''daysSince'' \<mapsto> v) = c(''daysSince'' \<mapsto> v')"
    using v le by blast
  ultimately have "list_all2 (\<lambda>c r. \<exists>v j m. n \<le> j \<and> m \<le> n' \<and>
       days_since clk j (parse_last p (dict_get c ''lastContactedAt'' PNone)) = Inr (v, m) \<and>
       r = c(''daysSince'' \<mapsto> v)) (c # cs) (c(''daysSince'' \<mapsto> v) # rs')"
    by (intro list_all2_Cons [THEN iffD2] conjI)
  moreover have "n \<le> n'"
    using le n1 by simp
  ultimately show ?case
    unfolding rs by (intro conjI)
qed

lemma annotate_length:
  "annotate p clk n cs = Inr (rs, n') \<Longrightarrow> length rs = length cs"
  by (drule annotate_Inr) (auto dest: list_all2_lengthD)

subsection \<open>Well-formed contacts raise no exception\<close>

lemma well_formed_cases:
  "well_formed p c \<Longrightarrow>
   parse_last p (dict_get c ''lastContactedAt'' PNone) = PNone \<or>
   (\<exists>d f. parse_last p (dict_get c ''lastContactedAt'' PNone) = PDatetime d \<and> tz_aware d \<and>
          dict_get c ''frequencyDays'' (PInt 30) = PInt f)"
  by (auto simp: well_formed_def split: pyval.splits)

lemma well_formed_overdue_score:
  "well_formed p c \<Longrightarrow> \<exists>s m. overdue_score p clk n c = Inr (s, m)"
  using well_formed_cases [of p c] overdue_score_never [of p c clk n]
    overdue_score_datetime [of p c _ _ clk n]
  by metis

lemma well_formed_is_due:
  "well_formed p c \<Longrightarrow> \<exists>b m. is_due p clk n c = Inr (b, m)"
  using well_formed_cases [of p c] is_due_never [of p c clk n] is_due_datetime [of p c _ _ clk n]
  by metis

lemma well_formed_days_since:
  "well_formed p c \<Longrightarrow>
   \<exists>v m. days_since clk n (parse_last p (dict_get c ''lastContactedAt'' PNone)) = Inr (v, m)"
  using well_formed_cases [of p c]
  by (auto simp: days_since_def now_utc_def sub_days_def)

lemma well_formed_keys_of:
  "\<forall>c\<in>set cs. well_formed p c \<Longrightarrow> \<exists>ks n'. keys_of p clk n cs = Inr (ks, n')"
proof (induction cs arbitrary: n)
  case Nil
  then show ?case by simp
next
  case (Cons c cs)
  then obtain s m where s: "overdue_score p clk n c = Inr (s, m)"
    using well_formed_overdue_score [of p c clk n] by auto
  from Cons obtain ks n' where "keys_of p clk m cs = Inr (ks, n')"
    by fastforce
  with s show ?case by simp
qed

lemma well_formed_due_of:
  "\<forall>c\<in>set cs. well_formed p c \<Longrightarrow> \<exists>ds n'. due_of p clk n cs = Inr (ds, n')"
proof (induction cs arbitrary: n)
  case Nil
  then show ?case by simp
next
  case (Cons c cs)
  then obtain b m where b: "is_due p clk n c = Inr (b, m)"
    using well_formed_is_due [of p c clk n] by auto
  from Cons obtain ds n' where "due_of p clk m cs = Inr (ds, n')"
    by fastforce
  with b show ?case by simp
qed

lemma well_formed_annotate:
  "\<forall>c\<in>set cs. well_formed p c \<Longrightarrow> \<exists>rs n'. annotate p clk n cs = Inr (rs, n')"
proof (induction cs arbitrary: n)
  case Nil
  then show ?case by simp
next
  case (Cons c cs)
  then obtain v m where
    v: "days_since clk n (parse_last p (dict_get c ''lastContactedAt'' PNone)) = Inr (v, m)"
    using well_formed_days_since [of p c clk n] by auto
  from Cons obtain rs n' where "annotate p clk m cs = Inr (rs, n')"
    by fastforce
  with v show ?case by (simp add: Let_def)
qed

lemma dict_get_with_id:
  "dict_get (with_id it) ''lastContactedAt'' dflt = dict_get (snd it) ''lastContactedAt'' dflt"
  "dict_get (with_id it) ''frequencyDays'' dflt = dict_get (snd it) ''frequencyDays'' dflt"
  by (simp_all add: with_id_def dict_get_def)

lemma well_formed_with_id:
  "well_formed p (with_id it) = well_formed p (snd it)"
  unfolding well_formed_def dict_get_with_id by (rule refl)

subsection \<open>The filter and the slice\<close>

lemma due_subset:
  "due_of p clk n cs = Inr (ds, n') \<Longrightarrow> set ds \<subseteq> set cs"
proof -
  assume "due_of p clk n cs = Inr (ds, n')"
  then obtain bs where "ds = map fst (filter snd (zip cs bs))"
    using due_of_Inr by blast
  then show ?thesis
    by (auto dest: set_zip_leftD)
qed

lemma slice_to_take:
  "slice_to k xs = take (if 0 \<le> k then nat k else length xs - nat (- k)) xs"
  by (simp add: slice_to_def)

lemma slice_subset: "set (slice_to k xs) \<subseteq> set xs"
  by (simp add: slice_to_take set_take_subset)

lemma length_slice_to:
  "0 \<le> k \<Longrightarrow> length (slice_to k xs) = min (nat k) (length xs)"
  by (simp add: slice_to_def min_def)




section \<open>Properties of the suggestion engine\<close>

lemma get_suggestions_unfold:
  "get_suggestions p clk n (Some d) mode_q count_q =
     (case keys_of p clk n (map with_id (d ''contact'')) of
        Inl e \<Rightarrow> Inl e
      | Inr kn \<Rightarrow>
          (case due_of p clk (snd kn)
                  (map snd (sort_desc (zip (fst kn) (map with_id (d ''contact''))))) of
             Inl e \<Rightarrow> Inl e
           | Inr dn \<Rightarrow>
               annotate p clk (snd dn)
                 (slice_to (count_param count_q)
                    (if fst dn \<noteq> [] then fst dn
                     else map snd (sort_desc (zip (fst kn) (map with_id (d ''contact''))))))))"
  unfolding get_suggestions_def target_of_count collection_def Let_def case_prod_unfold
    option.case sum.case
  by (rule refl)

lemma get_suggestions_Inr:
  assumes "get_suggestions p clk n (Some d) mode_q count_q = Inr (rs, n')"
  shows "\<exists>ks n1 due n2.
           keys_of p clk n (map with_id (d ''contact'')) = Inr (ks, n1)
         \<and> due_of p clk n1 (map snd (sort_desc (zip ks (map with_id (d ''contact''))))) = Inr (due, n2)
         \<and> annotate p clk n2
             (slice_to (count_param count_q)
                (if due \<noteq> [] then due
                 else map snd (sort_desc (zip ks (map with_id (d ''contact'')))))) = Inr (rs, n')"
proof (cases "keys_of p clk n (map with_id (d ''contact''))")
  case (Inl e)
  with assms show ?thesis
    by (simp add: get_suggestions_unfold)
next
  case (Inr kn)
  show ?thesis
  proof (cases "due_of p clk (snd kn)
                  (map snd (sort_desc (zip (fst kn) (map with_id (d ''contact'')))))")
    case (Inl e)
    with assms Inr show ?thesis
      by (simp add: get_suggestions_unfold)
  next
    case dn: (Inr dn)
    have "keys_of p clk n (map with_id (d ''contact'')) = Inr (fst kn, snd kn)"
      using Inr by simp
    moreover have "due_of p clk (snd kn)
        (map snd (sort_desc (zip (fst kn) (map with_id (d ''contact''))))) = Inr (fst dn, snd dn)"
      using dn by simp
    moreover have "annotate p clk (snd dn)
        (slice_to (count_param count_q)
           (if fst dn \<noteq> [] then fst dn
            else map snd (sort_desc (zip (fst kn) (map with_id (d ''contact'')))))) = Inr (rs, n')"
      using assms Inr dn by (simp add: get_suggestions_unfold)
    ultimately show ?thesis
      by blast
  qed
qed

lemma get_suggestions_run:
  assumes "keys_of p clk n (map with_id (d ''contact'')) = Inr (ks, n1)"
      and "due_of p clk n1 (map snd (sort_desc (zip ks (map with_id (d ''contact''))))) = Inr (due, n2)"
      and "annotate p clk n2
             (slice_to (count_param count_q)
                (if due \<noteq> [] then due
                 else map snd (sort_desc (zip ks (map with_id (d ''contact'')))))) = Inr (rs, n')"
  shows "get_suggestions p clk n (Some d) mode_q count_q = Inr (rs, n')"
  using assms by (cases "due = []") (simp_all add: get_suggestions_unfold)

lemma get_suggestions_no_db:
  "get_suggestions p clk n None mode_q count_q = Inl (HTTPException 500)"
  by (simp add: get_suggestions_def collection_def)

lemma list_all2_right_member:
  "list_all2 P xs ys \<Longrightarrow> y \<in> set ys \<Longrightarrow> \<exists>x\<in>set xs. P x y"
  by (induction rule: list_all2_induct) auto

lemma days_since_cases:
  "days_since clk j x = Inr (v, m) \<Longrightarrow>
   (case x of
      PDatetime dd \<Rightarrow> tz_aware dd \<and> v = PInt ((clk j - micros dd) div us_per_day) \<and> m = Suc j
    | _ \<Rightarrow> v = PNone)"
  by (auto simp: days_since_def now_utc_def sub_days_def split: pyval.splits if_splits)

text \<open>
  Claim C9. Every contact of a returned suggestion sequence carries \<open>daysSince\<close>: for a
  contact whose \<open>lastContactedAt\<close> is (or parses to) a datetime, the whole days between it
  and the clock reading taken for that contact during the request; \<open>None\<close> for a contact
  that was never contacted or whose timestamp does not parse.
\<close>

theorem suggestions_days_since:
  assumes "get_suggestions p clk n db mode_q count_q = Inr (rs, n')"
  shows "\<forall>r\<in>set rs.
           (case parse_last p (dict_get r ''lastContactedAt'' PNone) of
              PDatetime dd \<Rightarrow>
                \<exists>j. n \<le> j \<and> j < n' \<and> tz_aware dd \<and>
                    r ''daysSince'' = Some (PInt ((clk j - micros dd) div us_per_day))
            | _ \<Rightarrow> r ''daysSince'' = Some PNone)"
proof
  fix r assume r: "r \<in> set rs"
  from assms obtain d where db: "db = Some d"
    by (cases db) (simp_all add: get_suggestions_no_db)
  from get_suggestions_Inr [OF assms [unfolded db]] obtain ks n1 due n2 pool where
    k: "keys_of p clk n (map with_id (d ''contact'')) = Inr (ks, n1)" and
    u: "due_of p clk n1 (map snd (sort_desc (zip ks (map with_id (d ''contact''))))) = Inr (due, n2)" and
    a: "annotate p clk n2 pool = Inr (rs, n')"
    by blast
  have le: "n \<le> n2"
    using keys_of_Inr [OF k] due_of_Inr [OF u] by simp
  from annotate_Inr [OF a] r obtain c v j m where
    j: "n2 \<le> j" "m \<le> n'" and
    v: "days_since clk j (parse_last p (dict_get c ''lastContactedAt'' PNone)) = Inr (v, m)" and
    rc: "r = c(''daysSince'' \<mapsto> v)"
    by (blast dest: list_all2_right_member)
  have same: "dict_get r ''lastContactedAt'' PNone = dict_get c ''lastContactedAt'' PNone"
    unfolding rc by (simp add: dict_get_def)
  have ds: "r ''daysSince'' = Some v"
    unfolding rc by simp
  show "case parse_last p (dict_get r ''lastContactedAt'' PNone) of
          PDatetime dd \<Rightarrow>
            \<exists>j. n \<le> j \<and> j < n' \<and> tz_aware dd \<and>
                r ''daysSince'' = Some (PInt ((clk j - micros dd) div us_per_day))
        | _ \<Rightarrow> r ''daysSince'' = Some PNone"
  proof (cases "parse_last p (dict_get c ''lastContactedAt'' PNone)")
    case (PDatetime dd)
    with days_since_cases [OF v] have "tz_aware dd"
      "v = PInt ((clk j - micros dd) div us_per_day)" "m = Suc j"
      by simp_all
    then have "n \<le> j \<and> j < n' \<and> tz_aware dd \<and>
               r ''daysSince'' = Some (PInt ((clk j - micros dd) div us_per_day))"
      using j le ds by simp
    then show ?thesis
      unfolding same PDatetime by auto
  qed (use days_since_cases [OF v] ds in \<open>simp_all add: same\<close>)
qed

lemma demo_keys:
  "keys_of demo_parser demo_clock 0 (map with_id (demo_db ''contact''))
     = Inr ([16, 60, 1000000000], 2)"
  by (simp add: demo_db_def overdue_score_def with_id_def dict_get_def parse_last_simps
      seed_alex_def seed_jamie_def seed_taylor_def now_utc_def sub_days_def int_sub_def
      never_score_def demo_clock_def days_def us_per_day_def)

lemma demo_suggestions:
  "\<exists>rs. get_suggestions demo_parser demo_clock 0 (Some demo_db) mode_q None = Inr (rs, 6)"
  unfolding get_suggestions_def target_of_count
  by (simp add: collection_def demo_keys sort_desc_def Let_def)
     (simp add: demo_db_def is_due_def days_since_def with_id_def dict_get_def
      parse_last_simps seed_alex_def seed_jamie_def seed_taylor_def now_utc_def sub_days_def
      int_ge_def demo_clock_def days_def us_per_day_def slice_to_def count_param_def)

theorem suggestions_days_since_witness:
  "\<exists>rs n'. get_suggestions demo_parser demo_clock 0 (Some demo_db) None None = Inr (rs, n')
     \<and> (\<forall>r\<in>set rs.
           (case parse_last demo_parser (dict_get r ''lastContactedAt'' PNone) of
              PDatetime dd \<Rightarrow>
                \<exists>j. 0 \<le> j \<and> j < n' \<and> tz_aware dd \<and>
                    r ''daysSince'' = Some (PInt ((demo_clock j - micros dd) div us_per_day))
            | _ \<Rightarrow> r ''daysSince'' = Some PNone))"
proof -
  from demo_suggestions obtain rs where
    "get_suggestions demo_parser demo_clock 0 (Some demo_db) None None = Inr (rs, 6)"
    by blast
  then show ?thesis
    using suggestions_days_since [of demo_parser demo_clock 0 "Some demo_db" None None rs 6]
    by blast
qed

lemma slice_to_Nil: "slice_to k [] = []"
  by (simp add: slice_to_def)

text \<open>
  Claim C3. A never-contacted contact A should score strictly above every contact B that
  has a \<open>lastContactedAt\<close>, and be suggested before it. The code breaks this for a B whose
  \<open>lastContactedAt\<close> carries no timezone: A scores the sentinel, the score of B is not
  computed, \<open>overdue_score\<close> raises TypeError, and the request for suggestions fails with
  that exception instead of listing A first.
\<close>

theorem overdue_score_naive_raises:
  "overdue_score demo_parser demo_clock 0 seed_taylor = Inr (1000000000, 0)
   \<and> overdue_score demo_parser demo_clock 0 naive_contact = Inl TypeError
   \<and> get_suggestions demo_parser demo_clock 0 (Some naive_db) None None = Inl TypeError"
proof -
  have a: "overdue_score demo_parser demo_clock n (with_id (i, seed_taylor)) = Inr (1000000000, n)"
    "overdue_score demo_parser demo_clock n seed_taylor = Inr (1000000000, n)" for n i
    by (simp_all add: overdue_score_def with_id_def seed_taylor_def dict_get_def parse_last_simps
        never_score_def)
  have b: "overdue_score demo_parser demo_clock n (with_id (i, naive_contact)) = Inl TypeError"
    "overdue_score demo_parser demo_clock n naive_contact = Inl TypeError" for n i
    by (simp_all add: overdue_score_def with_id_def naive_contact_def dict_get_def
        parse_last_simps now_utc_def sub_days_def)
  have "keys_of demo_parser demo_clock 0 (map with_id (naive_db ''contact'')) = Inl TypeError"
    by (simp add: naive_db_def a b)
  then have "get_suggestions demo_parser demo_clock 0 (Some naive_db) None None = Inl TypeError"
    by (simp add: get_suggestions_unfold)
  then show ?thesis
    using a(2) b(2) by simp
qed

text \<open>
  Claim C7. For every count \<open>N \<ge> 0\<close> and every contact set the suggestion operation should
  return \<open>min N (size of the pool)\<close> contacts. The code breaks this for a store that holds
  a contact whose \<open>lastContactedAt\<close> carries no timezone: with two stored contacts, for
  \<open>N = 1\<close> and for \<open>N = 0\<close>, the request fails with TypeError and returns nothing.
\<close>

theorem suggestions_naive_raises:
  "length (naive_db ''contact'') = 2
   \<and> get_suggestions demo_parser demo_clock 0 (Some naive_db) None (Some 1) = Inl TypeError
   \<and> get_suggestions demo_parser demo_clock 0 (Some naive_db) None (Some 0) = Inl TypeError"
proof -
  have a: "overdue_score demo_parser demo_clock 0 (with_id (OidKey oid_c, seed_taylor))
             = Inr (1000000000, 0)"
    by (simp add: overdue_score_def with_id_def seed_taylor_def dict_get_def parse_last_simps
        never_score_def)
  have b: "overdue_score demo_parser demo_clock 0 (with_id (OidKey oid_d, naive_contact))
             = Inl TypeError"
    by (simp add: overdue_score_def with_id_def naive_contact_def dict_get_def
        parse_last_simps now_utc_def sub_days_def)
  have k: "keys_of demo_parser demo_clock 0 (map with_id (naive_db ''contact'')) = Inl TypeError"
    by (simp add: naive_db_def a b)
  have "get_suggestions demo_parser demo_clock 0 (Some naive_db) None count_q = Inl TypeError"
    for count_q
    using k by (simp add: get_suggestions_unfold)
  then show ?thesis
    by (simp add: naive_db_def)
qed

text \<open>
  Stores of well-formed contacts. When every stored contact is well-formed and the count
  is \<open>N \<ge> 0\<close>, the suggestion operation returns, without an exception, at most \<open>N\<close>
  contacts, and exactly \<open>min N (size of the pool)\<close>, the pool being the due contacts when
  there are any and all contacts otherwise. With no contacts in storage it returns the
  empty sequence, whatever the count.
\<close>

lemma suggestions_count_bound:
  assumes wf: "\<forall>it\<in>set (d ''contact''). well_formed p (snd it)"
      and N: "0 \<le> count_param count_q"
  shows "\<exists>rs n' ks n1 due n2.
           keys_of p clk n (map with_id (d ''contact'')) = Inr (ks, n1)
         \<and> due_of p clk n1 (map snd (sort_desc (zip ks (map with_id (d ''contact''))))) = Inr (due, n2)
         \<and> get_suggestions p clk n (Some d) mode_q count_q = Inr (rs, n')
         \<and> length rs \<le> nat (count_param count_q)
         \<and> length rs = min (nat (count_param count_q))
                            (length (if due \<noteq> [] then due else map with_id (d ''contact'')))
         \<and> (d ''contact'' = [] \<longrightarrow> rs = [] \<and> n' = n)"
proof -
  let ?items = "map with_id (d ''contact'')"
  have wfi: "\<forall>c\<in>set ?items. well_formed p c"
    using wf by (simp add: well_formed_with_id)
  then obtain ks n1 where k: "keys_of p clk n ?items = Inr (ks, n1)"
    using well_formed_keys_of by blast
  let ?sorted = "map snd (sort_desc (zip ks ?items))"
  have len: "length ks = length ?items"
    using keys_of_Inr [OF k] by (auto dest: list_all2_lengthD)
  have sset: "set ?sorted = set ?items"
    by (rule set_sorted_items [OF len])
  have slen: "length ?sorted = length (d ''contact'')"
    using length_sorted_items [OF len] by simp
  from wfi sset obtain due n2 where u: "due_of p clk n1 ?sorted = Inr (due, n2)"
    using well_formed_due_of [of ?sorted p clk n1] by blast
  let ?pool = "if due \<noteq> [] then due else ?sorted"
  have "set ?pool \<subseteq> set ?items"
    using due_subset [OF u] sset by auto
  then have "\<forall>c\<in>set (slice_to (count_param count_q) ?pool). well_formed p c"
    using wfi slice_subset [of "count_param count_q" ?pool] by blast
  then obtain rs n' where
    a: "annotate p clk n2 (slice_to (count_param count_q) ?pool) = Inr (rs, n')"
    using well_formed_annotate by blast
  have g: "get_suggestions p clk n (Some d) mode_q count_q = Inr (rs, n')"
    by (rule get_suggestions_run [where d = d, OF k u a])
  have l: "length rs = min (nat (count_param count_q)) (length ?pool)"
    using annotate_length [OF a] length_slice_to [OF N, of ?pool] by simp
  have l': "length rs = min (nat (count_param count_q))
                          (length (if due \<noteq> [] then due else map with_id (d ''contact'')))"
    using l slen by (simp split: if_splits)
  have e: "rs = [] \<and> n' = n" if "d ''contact'' = []"
    using that k u a by (auto simp: sort_desc_def slice_to_Nil)
  show ?thesis
    using k u g l' e by (intro exI [of _ rs] exI [of _ n'] exI [of _ ks] exI [of _ n1]
        exI [of _ due] exI [of _ n2]) simp
qed

lemma demo_well_formed:
  "\<forall>it\<in>set (demo_db ''contact''). well_formed demo_parser (snd it)"
  by (simp add: demo_db_def well_formed_def dict_get_def parse_last_simps
      seed_alex_def seed_jamie_def seed_taylor_def)

lemma suggestions_count_bound_example:
  "(\<exists>rs n'. get_suggestions demo_parser demo_clock 0 (Some demo_db) None (Some 2) = Inr (rs, n')
       \<and> length rs = 2)
   \<and> (\<exists>rs n'. get_suggestions demo_parser demo_clock 0 (Some empty_db) None None = Inr (rs, n')
       \<and> rs = [])"
proof -
  have c: "(0::int) \<le> count_param (Some 2)" "(0::int) \<le> count_param None"
    by (simp_all add: count_param_def)
  have l: "length (demo_db ''contact'') = 3"
    by (simp add: demo_db_def)
  have e: "\<forall>it\<in>set (empty_db ''contact''). well_formed demo_parser (snd it)"
    by (simp add: empty_db_def)
  from suggestions_count_bound [where d = demo_db, OF demo_well_formed c(1), of demo_clock 0 None]
  obtain rs n' ks n1 due n2 where
    u: "due_of demo_parser demo_clock n1
          (map snd (sort_desc (zip ks (map with_id (demo_db ''contact''))))) = Inr (due, n2)" and
    g: "get_suggestions demo_parser demo_clock 0 (Some demo_db) None (Some 2) = Inr (rs, n')" and
    r: "length rs = min (nat (count_param (Some 2)))
                        (length (if due \<noteq> [] then due else map with_id (demo_db ''contact'')))" and
    k: "keys_of demo_parser demo_clock 0 (map with_id (demo_db ''contact'')) = Inr (ks, n1)"
    by blast
  from k have ks: "ks = [16, 60, 1000000000]" "n1 = 2"
    by (simp_all add: demo_keys)
  from u have "length due = 3"
    unfolding ks
    by (auto simp: sort_desc_def demo_db_def is_due_def with_id_def dict_get_def
        parse_last_simps seed_alex_def seed_jamie_def seed_taylor_def now_utc_def sub_days_def
        int_ge_def demo_clock_def days_def us_per_day_def)
  with r l have "length rs = 2"
    by (auto simp: count_param_def)
  with g have first: "\<exists>rs n'. get_suggestions demo_parser demo_clock 0 (Some demo_db) None (Some 2)
      = Inr (rs, n') \<and> length rs = 2"
    by blast
  have "empty_db ''contact'' = []"
    by (simp add: empty_db_def)
  with suggestions_count_bound [where d = empty_db, OF e c(2), of demo_clock 0 None]
  have second: "\<exists>rs n'. get_suggestions demo_parser demo_clock 0 (Some empty_db) None None
      = Inr (rs, n') \<and> rs = []"
    by blast
  from first second show ?thesis ..
qed

lemma is_due_False_well_formed:
  "is_due p clk j c = Inr (False, m) \<Longrightarrow> well_formed p c"
  unfolding is_due_def well_formed_def Let_def
  by (auto simp: now_utc_def sub_days_def int_ge_def split: if_splits sum.splits pyval.splits)

lemma due_of_none:
  "\<forall>c\<in>set cs. \<forall>j. n \<le> j \<and> j < n + length cs \<longrightarrow> (\<exists>m. is_due p clk j c = Inr (False, m)) \<Longrightarrow>
   \<exists>n'. due_of p clk n cs = Inr ([], n')"
proof (induction cs arbitrary: n)
  case Nil
  then show ?case by simp
next
  case (Cons c cs)
  from Cons.prems obtain m where m: "is_due p clk n c = Inr (False, m)"
    by fastforce
  from is_due_reads [OF m] have le: "n \<le> m" "m \<le> Suc n"
    by simp_all
  have "\<forall>c\<in>set cs. \<forall>j. m \<le> j \<and> j < m + length cs \<longrightarrow> (\<exists>m. is_due p clk j c = Inr (False, m))"
  proof (intro ballI allI impI)
    fix c' j assume c': "c' \<in> set cs" and j: "m \<le> j \<and> j < m + length cs"
    then have "n \<le> j \<and> j < n + length (c # cs)"
      using le by simp
    with c' Cons.prems show "\<exists>m. is_due p clk j c' = Inr (False, m)"
      by (meson list.set_intros(2))
  qed
  from Cons.IH [OF this] obtain n' where "due_of p clk m cs = Inr ([], n')"
    by blast
  with m show ?case by simp
qed

text \<open>
  Claim C6, as amended. When at least one contact exists, no contact is due at the clock
  readings of the request, and the count is at least 1, the suggestion operation returns
  a non-empty result: the contacts sorted by score, cut to the count and annotated.
\<close>

theorem suggestions_fallback:
  assumes ne: "d ''contact'' \<noteq> []"
      and nodue: "\<forall>it\<in>set (d ''contact''). \<forall>j. n \<le> j \<and> j < n + 2 * length (d ''contact'') \<longrightarrow>
                    (\<exists>m. is_due p clk j (with_id it) = Inr (False, m))"
      and cnt: "1 \<le> count_param count_q"
  shows "\<exists>rs n' ks n1 n2.
           keys_of p clk n (map with_id (d ''contact'')) = Inr (ks, n1)
         \<and> due_of p clk n1 (map snd (sort_desc (zip ks (map with_id (d ''contact''))))) = Inr ([], n2)
         \<and> annotate p clk n2
             (slice_to (count_param count_q)
                (map snd (sort_desc (zip ks (map with_id (d ''contact'')))))) = Inr (rs, n')
         \<and> get_suggestions p clk n (Some d) mode_q count_q = Inr (rs, n')
         \<and> rs \<noteq> []
         \<and> length rs = min (nat (count_param count_q)) (length (d ''contact''))"
proof -
  let ?items = "map with_id (d ''contact'')"
  have pos: "0 < length (d ''contact'')"
    using ne by simp
  have wfi: "\<forall>c\<in>set ?items. well_formed p c"
  proof
    fix c assume "c \<in> set ?items"
    then obtain it where it: "it \<in> set (d ''contact'')" "c = with_id it"
      by auto
    have "n \<le> n \<and> n < n + 2 * length (d ''contact'')"
      using pos by simp
    with nodue it(1) obtain m where "is_due p clk n (with_id it) = Inr (False, m)"
      by blast
    then show "well_formed p c"
      using it by (simp add: is_due_False_well_formed)
  qed
  then obtain ks n1 where k: "keys_of p clk n ?items = Inr (ks, n1)"
    using well_formed_keys_of by blast
  let ?sorted = "map snd (sort_desc (zip ks ?items))"
  have len: "length ks = length ?items" and n1: "n \<le> n1" "n1 \<le> n + length ?items"
    using keys_of_Inr [OF k] by (auto dest: list_all2_lengthD)
  have sset: "set ?sorted = set ?items"
    by (rule set_sorted_items [OF len])
  have slen: "length ?sorted = length (d ''contact'')"
    using length_sorted_items [OF len] by simp
  have "\<forall>c\<in>set ?sorted. \<forall>j. n1 \<le> j \<and> j < n1 + length ?sorted \<longrightarrow>
          (\<exists>m. is_due p clk j c = Inr (False, m))"
  proof (intro ballI allI impI)
    fix c j assume c: "c \<in> set ?sorted" and j: "n1 \<le> j \<and> j < n1 + length ?sorted"
    from c sset obtain it where it: "it \<in> set (d ''contact'')" "c = with_id it"
      by auto
    have "n \<le> j \<and> j < n + 2 * length (d ''contact'')"
      using j n1 slen by simp
    with nodue it show "\<exists>m. is_due p clk j c = Inr (False, m)"
      by blast
  qed
  from due_of_none [OF this] obtain n2 where u: "due_of p clk n1 ?sorted = Inr ([], n2)"
    by blast
  have "\<forall>c\<in>set (slice_to (count_param count_q) ?sorted). well_formed p c"
    using wfi sset slice_subset [of "count_param count_q" ?sorted] by blast
  then obtain rs n' where
    a: "annotate p clk n2 (slice_to (count_param count_q) ?sorted) = Inr (rs, n')"
    using well_formed_annotate by blast
  have g: "get_suggestions p clk n (Some d) mode_q count_q = Inr (rs, n')"
    using k u a by (intro get_suggestions_run [where d = d and due = "[]"]) simp_all
  have l: "length rs = min (nat (count_param count_q)) (length (d ''contact''))"
    using annotate_length [OF a] length_slice_to [of "count_param count_q" ?sorted] cnt slen
    by simp
  have "0 < length rs"
    unfolding l using cnt pos by simp
  then have "rs \<noteq> []"
    by auto
  then show ?thesis
    using k u a g l by blast
qed

lemma frozen_not_due:
  "is_due demo_parser frozen_clock j (with_id (i, contact_of 30 (demo_now - days 3))) = Inr (False, Suc j)"
  "is_due demo_parser frozen_clock j (with_id (i, contact_of 7 demo_now)) = Inr (False, Suc j)"
  by (simp_all add: is_due_def with_id_def contact_of_def dict_get_def parse_last_simps
      now_utc_def sub_days_def int_ge_def frozen_clock_def days_def us_per_day_def)

theorem suggestions_fallback_witness:
  "\<exists>rs n'. get_suggestions demo_parser frozen_clock 0 (Some demo_db_recent) None None = Inr (rs, n')
     \<and> rs \<noteq> [] \<and> length rs = 2"
proof -
  have ne: "demo_db_recent ''contact'' \<noteq> []" and l: "length (demo_db_recent ''contact'') = 2"
    by (simp_all add: demo_db_recent_def)
  have nodue: "\<forall>it\<in>set (demo_db_recent ''contact'').
       \<forall>j. 0 \<le> j \<and> j < 0 + 2 * length (demo_db_recent ''contact'') \<longrightarrow>
         (\<exists>m. is_due demo_parser frozen_clock j (with_id it) = Inr (False, m))"
    by (simp add: demo_db_recent_def frozen_not_due)
  have cnt: "1 \<le> count_param None"
    by (simp add: count_param_def)
  from suggestions_fallback [where d = demo_db_recent, OF ne nodue cnt, of None] l
  show ?thesis
    by (auto simp: count_param_def)
qed

text \<open>
  The claim as stated fails for a count of 0, which the handler accepts: nothing is due,
  two contacts exist, and the result is empty.
\<close>

theorem suggestions_fallback_counterexample:
  "is_due demo_parser demo_clock 3 (with_id (OidKey oid_a, contact_of 30 (demo_now - days 3)))
     = Inr (False, 4)
   \<and> is_due demo_parser demo_clock 2 (with_id (OidKey oid_b, contact_of 7 demo_now))
     = Inr (False, 3)
   \<and> length (demo_db_recent ''contact'') = 2
   \<and> get_suggestions demo_parser demo_clock 0 (Some demo_db_recent) None (Some 0) = Inr ([], 4)"
proof -
  have k: "keys_of demo_parser demo_clock 0 (map with_id (demo_db_recent ''contact''))
             = Inr ([- 27, - 7], 2)"
    by (simp add: demo_db_recent_def overdue_score_def with_id_def contact_of_def dict_get_def
        parse_last_simps now_utc_def sub_days_def int_sub_def demo_clock_def days_def
        us_per_day_def)
  have d1: "is_due demo_parser demo_clock 3 (with_id (OidKey oid_a, contact_of 30 (demo_now - days 3)))
     = Inr (False, 4)"
    and d2: "is_due demo_parser demo_clock 2 (with_id (OidKey oid_b, contact_of 7 demo_now))
     = Inr (False, 3)"
    by (simp_all add: is_due_def with_id_def contact_of_def dict_get_def parse_last_simps
        now_utc_def sub_days_def int_ge_def demo_clock_def days_def us_per_day_def)
  have u: "due_of demo_parser demo_clock 2
      (map snd (sort_desc (zip [- 7, - 27] (map with_id (rev (demo_db_recent ''contact''))))))
      = Inr ([], 4)"
    by (simp add: sort_desc_def demo_db_recent_def d1 d2)
  have s: "sort_desc (zip [- 27, - 7] (map with_id (demo_db_recent ''contact'')))
         = sort_desc (zip [- 7, - 27] (map with_id (rev (demo_db_recent ''contact''))))"
    by (simp add: sort_desc_def demo_db_recent_def)
  have g: "get_suggestions demo_parser demo_clock 0 (Some demo_db_recent) None (Some 0) = Inr ([], 4)"
    by (rule get_suggestions_run [where d = demo_db_recent and due = "[]", OF k])
       (simp_all add: s u slice_to_def count_param_def)
  show ?thesis
    using d1 d2 g by (simp add: demo_db_recent_def)
qed




end
